theory Spec2Isabelle
  imports Main "HOL-Library.Sublist"
begin

section \<open>The permission service of the GenVolt web application\<close>

text \<open>
  The development embeds the class \<open>PermissionService\<close> (the second document of
  \<^verbatim>\<open>backend/tests/test_sessions.js\<close>): the dashboard permission cache
  (\<open>getUserPermissions\<close>, \<open>hasPermission\<close>, \<open>clearCache\<close>) and the client hierarchy
  resolver (\<open>getAccessibleClients\<close>, \<open>canUserManageClient\<close>).

  The service talks to a relational database through \<open>database.query\<close>. The database
  is modelled by its four tables, a counter of the queries sent to it, and a schedule
  telling which of these queries are answered and which are rejected. Every SQL
  statement of the source is written out as a list comprehension over the tables;
  strings are compared exactly, as under a binary collation. A rejected query is the
  value \<open>Inl\<close> of a sum type, so each \<open>try/catch\<close> of the source is a case
  distinction of the model.
\<close>

subsection \<open>Tables\<close>

datatype error = QueryFailed | SubqueryManyRows

text \<open>
  Table \<open>users\<close>: \<open>id INT IDENTITY(1,1) PRIMARY KEY\<close>, \<open>roles NVARCHAR(50) NOT NULL\<close>,
  \<open>client_id INT NULL\<close>. The column \<open>can_manage_hierarchy\<close> is selected by
  \<open>canUserManageClient\<close> only, which tests its truthiness: a boolean here.
\<close>

record user_row =
  u_id :: int
  u_roles :: string
  u_client_id :: "int option"
  u_can_manage_hierarchy :: bool

text \<open>
  Modelled from the spec: the declaration of table \<open>client\<close> is not part of the
  sources; the columns are those the three \<open>SELECT\<close> lists of \<open>getAccessibleClients\<close>
  name, with the types of the ClientNode of the data model (\<open>parent_id\<close> nullable,
  \<open>hierarchy_path\<close> a string holding the chain of ancestor ids). The result rows
  rename \<open>id\<close> to \<open>client_id\<close> and \<open>name\<close> to \<open>client_name\<close>; one record serves for
  the table row and the result row.
\<close>

record client_row =
  c_client_id :: int
  c_client_name :: string
  c_display_name :: string
  c_contact_email :: "string option"
  c_parent_client_id :: "int option"
  c_hierarchy_level :: int
  c_hierarchy_path :: string
  c_client_type :: string
  c_is_leaf_node :: bool
  c_display_order :: int
  c_is_active :: bool

text \<open>
  Table \<open>dashboards\<close>: \<open>id\<close> is the primary key and \<open>name\<close> is \<open>UNIQUE\<close>.
  Table \<open>role_permissions\<close>: \<open>UNIQUE (role_name, dashboard_id)\<close>; the flags
  \<open>can_edit\<close> and \<open>can_delete\<close> exist in the table and are never selected.
\<close>

record dashboard_row =
  d_id :: int
  d_name :: string
  d_display_name :: string
  d_is_active :: bool

record role_permission_row =
  rp_role_name :: string
  rp_dashboard_id :: int
  rp_can_access :: bool
  rp_can_edit :: bool
  rp_can_delete :: bool

record database =
  users :: "user_row list"
  client :: "client_row list"
  role_permissions :: "role_permission_row list"
  dashboards :: "dashboard_row list"
  available :: "nat \<Rightarrow> bool"
  query_count :: nat

text \<open>
  \<open>database.query\<close>: the statement is counted, and it is answered from the tables
  when the database is available for this query; otherwise the promise rejects.
\<close>

definition database_query ::
  "database \<Rightarrow> (database \<Rightarrow> error + 'a) \<Rightarrow> (error + 'a) \<times> database" where
  "database_query d stmt =
     ((if available d (query_count d) then stmt d else Inl QueryFailed),
      d\<lparr>query_count := query_count d + 1\<rparr>)"

subsection \<open>SQL building blocks\<close>

text \<open>
  \<open>LIKE\<close> with the wildcards \<open>%\<close> (any run of characters) and \<open>_\<close> (one character).
  Bracketed character classes are not modelled; the theorems below only use patterns
  free of \<open>%\<close>, \<open>_\<close> and \<open>[\<close> in front of the final \<open>%\<close>.
\<close>

fun sql_like :: "string \<Rightarrow> string \<Rightarrow> bool" where
  "sql_like s [] = (s = [])"
| "sql_like s (p # ps) =
     (if p = CHR ''%'' then
        (sql_like s ps \<or> (case s of [] \<Rightarrow> False | _ # t \<Rightarrow> sql_like t (p # ps)))
      else
        (case s of [] \<Rightarrow> False | c # t \<Rightarrow> (p = CHR ''_'' \<or> p = c) \<and> sql_like t ps))"

text \<open>\<open>ORDER BY hierarchy_path\<close>: a stable insertion sort, strings compared by code point.\<close>

fun path_le :: "string \<Rightarrow> string \<Rightarrow> bool" where
  "path_le [] t = True"
| "path_le (x # xs) [] = False"
| "path_le (x # xs) (y # ys) =
     ((of_char x :: nat) < of_char y \<or> (x = y \<and> path_le xs ys))"

fun insert_by_path :: "client_row \<Rightarrow> client_row list \<Rightarrow> client_row list" where
  "insert_by_path r [] = [r]"
| "insert_by_path r (x # xs) =
     (if path_le (c_hierarchy_path x) (c_hierarchy_path r) then x # insert_by_path r xs
      else r # x # xs)"

definition order_by_hierarchy_path :: "client_row list \<Rightarrow> client_row list" where
  "order_by_hierarchy_path rows = foldl (\<lambda>acc r. insert_by_path r acc) [] rows"

text \<open>\<open>String.prototype.includes\<close>: the argument occurs as a contiguous substring.\<close>

fun str_includes :: "string \<Rightarrow> string \<Rightarrow> bool" where
  "str_includes [] sub = (sub = [])"
| "str_includes (c # cs) sub = (prefix sub (c # cs) \<or> str_includes cs sub)"

subsection \<open>The statements of \<open>getAccessibleClients\<close> and \<open>canUserManageClient\<close>\<close>

text \<open>
  \<open>SELECT ... FROM users WHERE id = @userId\<close>: \<open>getAccessibleClients\<close> selects
  \<open>id, roles, client_id\<close> and \<open>canUserManageClient\<close> selects
  \<open>roles, client_id, can_manage_hierarchy\<close>; each reads the columns it selected.
\<close>

definition sql_user_by_id :: "int \<Rightarrow> database \<Rightarrow> error + user_row list" where
  "sql_user_by_id userId d = Inr [u \<leftarrow> users d. u_id u = userId]"

text \<open>Admin: \<open>SELECT ... FROM client ORDER BY hierarchy_path\<close> (no \<open>WHERE\<close> clause).\<close>

definition sql_all_clients :: "database \<Rightarrow> error + client_row list" where
  "sql_all_clients d = Inr (order_by_hierarchy_path (client d))"

text \<open>
  Branch admin:
  \<^verbatim>\<open>WHERE is_active = 1 AND (id = @clientId OR hierarchy_path LIKE (
       SELECT hierarchy_path + '%' FROM client WHERE id = @clientId))
   ORDER BY hierarchy_path\<close>
  The scalar subquery is \<open>NULL\<close> when no row has the id (then \<open>LIKE\<close> is unknown and
  only the test on \<open>id\<close> remains), and the statement fails when several rows have it.
\<close>

definition sql_branch_clients :: "int \<Rightarrow> database \<Rightarrow> error + client_row list" where
  "sql_branch_clients clientId d =
     (case map (\<lambda>c. c_hierarchy_path c @ ''%'') [c \<leftarrow> client d. c_client_id c = clientId] of
        [] \<Rightarrow> Inr (order_by_hierarchy_path
                 [c \<leftarrow> client d. c_is_active c \<and> c_client_id c = clientId])
      | [pat] \<Rightarrow> Inr (order_by_hierarchy_path
                 [c \<leftarrow> client d. c_is_active c \<and>
                    (c_client_id c = clientId \<or> sql_like (c_hierarchy_path c) pat)])
      | _ \<Rightarrow> Inl SubqueryManyRows)"

text \<open>Regular user: \<open>SELECT ... FROM client WHERE id = @clientId AND is_active = 1\<close>\<close>

definition sql_own_client :: "int \<Rightarrow> database \<Rightarrow> error + client_row list" where
  "sql_own_client clientId d =
     Inr [c \<leftarrow> client d. c_client_id c = clientId \<and> c_is_active c]"

subsection \<open>The client hierarchy resolver\<close>

text \<open>JavaScript truthiness of a nullable number: \<open>null\<close> and \<open>0\<close> are falsy.\<close>

fun truthy_id :: "int option \<Rightarrow> bool" where
  "truthy_id None = False"
| "truthy_id (Some n) = (n \<noteq> 0)"

text \<open>
  The \<open>catch\<close> block of \<open>getAccessibleClients\<close>: a rejected query is logged and the
  function returns the empty array.
\<close>

definition catch_empty ::
  "(error + client_row list) \<times> database \<Rightarrow> (error + client_row list) \<times> database" where
  "catch_empty r = (case fst r of Inl e \<Rightarrow> (Inr [], snd r) | Inr rows \<Rightarrow> (Inr rows, snd r))"

definition getAccessibleClients ::
  "database \<Rightarrow> int \<Rightarrow> (error + client_row list) \<times> database" where
  "getAccessibleClients d userId =
     (if userId = 0 then (Inr [], d)
      else
        (case database_query d (sql_user_by_id userId) of
           (Inl e, d1) \<Rightarrow> (Inr [], d1)
         | (Inr user, d1) \<Rightarrow>
             (case user of
                [] \<Rightarrow> (Inr [], d1)
              | userInfo # _ \<Rightarrow>
                  if u_roles userInfo = ''admin'' then
                    catch_empty (database_query d1 sql_all_clients)
                  else if str_includes (u_roles userInfo) ''_admin''
                          \<and> truthy_id (u_client_id userInfo) then
                    catch_empty (database_query d1
                      (sql_branch_clients (the (u_client_id userInfo))))
                  else if truthy_id (u_client_id userInfo) then
                    catch_empty (database_query d1
                      (sql_own_client (the (u_client_id userInfo))))
                  else (Inr [], d1))))"

text \<open>
  \<open>canUserManageClient\<close>: the only reader of \<open>can_manage_hierarchy\<close>. Its \<open>catch\<close>
  block returns \<open>false\<close>.
\<close>

definition canUserManageClient :: "database \<Rightarrow> int \<Rightarrow> int \<Rightarrow> (error + bool) \<times> database" where
  "canUserManageClient d userId clientId =
     (if userId = 0 \<or> clientId = 0 then (Inr False, d)
      else
        (case database_query d (sql_user_by_id userId) of
           (Inl e, d1) \<Rightarrow> (Inr False, d1)
         | (Inr user, d1) \<Rightarrow>
             (case user of
                [] \<Rightarrow> (Inr False, d1)
              | userInfo # _ \<Rightarrow>
                  if u_roles userInfo = ''admin'' then (Inr True, d1)
                  else if u_can_manage_hierarchy userInfo
                          \<and> truthy_id (u_client_id userInfo) then
                    (case getAccessibleClients d1 userId of
                       (Inl e, d2) \<Rightarrow> (Inr False, d2)
                     | (Inr accessibleClients, d2) \<Rightarrow>
                         (Inr (\<exists>c \<in> set accessibleClients. c_client_id c = clientId), d2))
                  else (Inr False, d1))))"

subsection \<open>The permission cache\<close>

text \<open>
  A row of the permission statement, the entry stored under a dashboard name in the
  permission object, and a cache entry \<open>{permissions, timestamp}\<close>. A JavaScript object
  used as a dictionary is a map from property names.
\<close>

record permission_row =
  dashboard_id :: int
  can_access :: bool
  dashboard_name :: string
  dashboard_display_name :: string

record permission =
  p_dashboard_id :: int
  p_can_access :: bool
  p_display_name :: string

type_synonym permission_obj = "string \<rightharpoonup> permission"

record cache_entry =
  permissions :: permission_obj
  timestamp :: int

record service =
  permissionCache :: "string \<rightharpoonup> cache_entry"
  db :: database

text \<open>\<open>static cacheTimeout = 5 * 60 * 1000\<close> milliseconds.\<close>

definition cacheTimeout :: int where
  "cacheTimeout = 5 * 60 * 1000"

text \<open>
  \<^verbatim>\<open>SELECT rp.dashboard_id, rp.can_access, d.name, d.display_name
   FROM role_permissions rp JOIN dashboards d ON rp.dashboard_id = d.id
   WHERE rp.role_name = @role AND d.is_active = 1 AND rp.can_access = 1\<close>
\<close>

definition sql_role_permissions :: "string \<Rightarrow> database \<Rightarrow> error + permission_row list" where
  "sql_role_permissions role d =
     Inr [\<lparr>dashboard_id = rp_dashboard_id rp, can_access = rp_can_access rp,
           dashboard_name = d_name dd, dashboard_display_name = d_display_name dd\<rparr>.
          rp \<leftarrow> role_permissions d, dd \<leftarrow> dashboards d,
          rp_dashboard_id rp = d_id dd,
          rp_role_name rp = role \<and> d_is_active dd \<and> rp_can_access rp]"

text \<open>The \<open>forEach\<close> loop that fills \<open>permissionObj\<close>; a later row overwrites an earlier one.\<close>

definition permission_object :: "permission_row list \<Rightarrow> permission_obj" where
  "permission_object rows =
     foldl (\<lambda>obj perm. obj(dashboard_name perm \<mapsto>
              \<lparr>p_dashboard_id = dashboard_id perm, p_can_access = can_access perm,
               p_display_name = dashboard_display_name perm\<rparr>)) Map.empty rows"

definition cacheKey :: "string \<Rightarrow> string" where
  "cacheKey role = ''permissions_'' @ role"

text \<open>
  \<open>getUserPermissions\<close>. \<open>Date.now()\<close> is read twice, before the cache lookup
  (\<open>now\<close>) and after the query has returned (\<open>stamp\<close>). The \<open>catch\<close> block returns the
  empty object and stores nothing.
\<close>

definition getUserPermissions ::
  "service \<Rightarrow> int \<Rightarrow> int \<Rightarrow> string \<Rightarrow> (error + permission_obj) \<times> service" where
  "getUserPermissions s now stamp role =
     (if role = [] then (Inr Map.empty, s)
      else
        let cached = permissionCache s (cacheKey role) in
        if cached \<noteq> None \<and> now - timestamp (the cached) < cacheTimeout then
          (Inr (permissions (the cached)), s)
        else
          (case database_query (db s) (sql_role_permissions role) of
             (Inl e, d1) \<Rightarrow> (Inr Map.empty, s\<lparr>db := d1\<rparr>)
           | (Inr rows, d1) \<Rightarrow>
               let permissionObj = permission_object rows in
               (Inr permissionObj,
                s\<lparr>permissionCache := (permissionCache s)(cacheKey role \<mapsto>
                     \<lparr>permissions = permissionObj, timestamp = stamp\<rparr>),
                  db := d1\<rparr>)))"

text \<open>
  The same function cut at its only \<open>await\<close>: the part that runs until the query has
  been sent and answered, and the part that runs once the answer is there. Other calls
  of the service can run between the two parts.
\<close>

definition getUserPermissions_begin ::
  "service \<Rightarrow> int \<Rightarrow> string
     \<Rightarrow> (permission_obj + (error + permission_row list)) \<times> service" where
  "getUserPermissions_begin s now role =
     (if role = [] then (Inl Map.empty, s)
      else
        let cached = permissionCache s (cacheKey role) in
        if cached \<noteq> None \<and> now - timestamp (the cached) < cacheTimeout then
          (Inl (permissions (the cached)), s)
        else
          (case database_query (db s) (sql_role_permissions role) of
             (answer, d1) \<Rightarrow> (Inr answer, s\<lparr>db := d1\<rparr>)))"

definition getUserPermissions_resume ::
  "service \<Rightarrow> int \<Rightarrow> string \<Rightarrow> error + permission_row list
     \<Rightarrow> (error + permission_obj) \<times> service" where
  "getUserPermissions_resume s stamp role answer =
     (case answer of
        Inl e \<Rightarrow> (Inr Map.empty, s)
      | Inr rows \<Rightarrow>
          let permissionObj = permission_object rows in
          (Inr permissionObj,
           s\<lparr>permissionCache := (permissionCache s)(cacheKey role \<mapsto>
                \<lparr>permissions = permissionObj, timestamp = stamp\<rparr>)\<rparr>))"

text \<open>
  \<open>hasPermission\<close>: the guard on missing arguments, then the admin bypass, then the
  lookup \<open>permissions[dashboardName]?.can_access === true\<close>.
\<close>

definition hasPermission ::
  "service \<Rightarrow> int \<Rightarrow> int \<Rightarrow> string \<Rightarrow> string \<Rightarrow> (error + bool) \<times> service" where
  "hasPermission s now stamp role dashboardName =
     (if role = [] \<or> dashboardName = [] then (Inr False, s)
      else if role = ''admin'' then (Inr True, s)
      else
        (case getUserPermissions s now stamp role of
           (Inl e, s1) \<Rightarrow> (Inl e, s1)
         | (Inr perms, s1) \<Rightarrow>
             (Inr (case perms dashboardName of
                     None \<Rightarrow> False
                   | Some p \<Rightarrow> p_can_access p), s1)))"

text \<open>
  \<open>clearCache(role = null)\<close>: a truthy role deletes that role's key, anything else
  (no argument, \<open>null\<close>, the empty string) clears the whole map.
\<close>

fun clearCache :: "service \<Rightarrow> string option \<Rightarrow> service" where
  "clearCache s None = s\<lparr>permissionCache := Map.empty\<rparr>"
| "clearCache s (Some role) =
     (if role \<noteq> [] then s\<lparr>permissionCache := (permissionCache s)(cacheKey role := None)\<rparr>
      else s\<lparr>permissionCache := Map.empty\<rparr>)"

subsection \<open>Notions used to state the properties\<close>

text \<open>
  The rows the permission statement returns for a role, and the permission object built
  from them: the permission state the tables currently hold for that role.
\<close>

definition role_rows :: "string \<Rightarrow> database \<Rightarrow> permission_row list" where
  "role_rows role d = (case sql_role_permissions role d of Inr rows \<Rightarrow> rows | Inl e \<Rightarrow> [])"

definition stored_permissions :: "database \<Rightarrow> string \<Rightarrow> permission_obj" where
  "stored_permissions d role = permission_object (role_rows role d)"

text \<open>
  A role's cache entry is live at time \<open>now\<close> when it exists and is younger than
  \<open>cacheTimeout\<close>: the test of \<open>getUserPermissions\<close>.
\<close>

definition cache_live :: "service \<Rightarrow> int \<Rightarrow> string \<Rightarrow> bool" where
  "cache_live s now role =
     (case permissionCache s (cacheKey role) of
        None \<Rightarrow> False
      | Some cached \<Rightarrow> now - timestamp cached < cacheTimeout)"

text \<open>
  The cache is current for a role when the entry it holds for the role, if any, is the
  object loaded from the present tables: no write to the role's permissions has happened
  since the load without the entry being evicted.
\<close>

definition cache_current :: "service \<Rightarrow> string \<Rightarrow> bool" where
  "cache_current s role =
     (case permissionCache s (cacheKey role) of
        None \<Rightarrow> True
      | Some cached \<Rightarrow> permissions cached = stored_permissions (db s) role)"

text \<open>A role has a permission entry for a dashboard name, whatever its flags.\<close>

definition has_entry :: "database \<Rightarrow> string \<Rightarrow> string \<Rightarrow> bool" where
  "has_entry d role dashboardName =
     (\<exists>rp \<in> set (role_permissions d). \<exists>dd \<in> set (dashboards d).
        rp_role_name rp = role \<and> rp_dashboard_id rp = d_id dd \<and> d_name dd = dashboardName)"

text \<open>
  The two uniqueness constraints of the schema: \<open>dashboards.name UNIQUE\<close> and
  \<open>UQ_RolePermissions_RoleDashboard UNIQUE (role_name, dashboard_id)\<close>.
\<close>

definition unique_keys :: "database \<Rightarrow> bool" where
  "unique_keys d =
     (distinct (map d_name (dashboards d))
      \<and> distinct (map (\<lambda>rp. (rp_role_name rp, rp_dashboard_id rp)) (role_permissions d)))"






text \<open>The value the \<open>catch\<close> block of \<open>getAccessibleClients\<close> leaves of a query result.\<close>

definition caught :: "error + client_row list \<Rightarrow> error + client_row list" where
  "caught r = (case r of Inl e \<Rightarrow> Inr [] | Inr rows \<Rightarrow> Inr rows)"

subsection \<open>A sample database\<close>

text \<open>
  The client tree root(1) \<rightarrow> division(2) \<rightarrow> site(5), with the sibling site(6) under
  the root. Paths are written \<open>/1/2/5/\<close>, the shape of the \<open>pathPattern\<close> parameter
  \<open>%/${client_id}/%\<close> that \<open>getAccessibleClients\<close> builds. The dashboards are the two of
  the seed data; role \<open>user\<close> has an inconsistent entry for the motor dashboard
  (no access, yet edit and delete).
\<close>

definition demo_node ::
  "int \<Rightarrow> int option \<Rightarrow> int \<Rightarrow> string \<Rightarrow> string \<Rightarrow> bool \<Rightarrow> client_row" where
  "demo_node i parent level path kind active =
     \<lparr>c_client_id = i, c_client_name = kind, c_display_name = kind,
      c_contact_email = None, c_parent_client_id = parent, c_hierarchy_level = level,
      c_hierarchy_path = path, c_client_type = kind, c_is_leaf_node = (kind = ''site''),
      c_display_order = 0, c_is_active = active\<rparr>"

definition demo_admin :: user_row where
  "demo_admin =
     \<lparr>u_id = 1, u_roles = ''admin'', u_client_id = Some 6, u_can_manage_hierarchy = False\<rparr>"

definition demo_branch_admin :: user_row where
  "demo_branch_admin =
     \<lparr>u_id = 2, u_roles = ''paddy_admin'', u_client_id = Some 2,
      u_can_manage_hierarchy = False\<rparr>"

definition demo_user :: user_row where
  "demo_user =
     \<lparr>u_id = 3, u_roles = ''user'', u_client_id = Some 2, u_can_manage_hierarchy = True\<rparr>"

definition demo_viewer :: user_row where
  "demo_viewer =
     \<lparr>u_id = 4, u_roles = ''viewer'', u_client_id = None, u_can_manage_hierarchy = True\<rparr>"

definition demo_db :: database where
  "demo_db =
     \<lparr>users = [demo_admin, demo_branch_admin, demo_user, demo_viewer],
      client =
        [demo_node 1 None 0 ''/1/'' ''root'' True,
         demo_node 2 (Some 1) 1 ''/1/2/'' ''division'' True,
         demo_node 5 (Some 2) 2 ''/1/2/5/'' ''site'' True,
         demo_node 6 (Some 1) 1 ''/1/6/'' ''site'' True],
      role_permissions =
        [\<lparr>rp_role_name = ''viewer'', rp_dashboard_id = 1, rp_can_access = True,
           rp_can_edit = False, rp_can_delete = False\<rparr>,
         \<lparr>rp_role_name = ''user'', rp_dashboard_id = 1, rp_can_access = True,
           rp_can_edit = False, rp_can_delete = False\<rparr>,
         \<lparr>rp_role_name = ''user'', rp_dashboard_id = 2, rp_can_access = False,
           rp_can_edit = True, rp_can_delete = True\<rparr>],
      dashboards =
        [\<lparr>d_id = 1, d_name = ''iot_dashboard'', d_display_name = ''IoT Device Dashboard'',
           d_is_active = True\<rparr>,
         \<lparr>d_id = 2, d_name = ''motor_dashboard'',
           d_display_name = ''Motor Device Dashboard'', d_is_active = True\<rparr>],
      available = (\<lambda>n. True), query_count = 0\<rparr>"

text \<open>The same tree with the division switched off, and with an inactive site under it.\<close>

definition demo_db_division_off :: database where
  "demo_db_division_off =
     demo_db\<lparr>client :=
        [demo_node 1 None 0 ''/1/'' ''root'' True,
         demo_node 2 (Some 1) 1 ''/1/2/'' ''division'' False,
         demo_node 5 (Some 2) 2 ''/1/2/5/'' ''site'' True,
         demo_node 6 (Some 1) 1 ''/1/6/'' ''site'' True]\<rparr>"

definition demo_db_site_off :: database where
  "demo_db_site_off =
     demo_db\<lparr>client :=
        [demo_node 1 None 0 ''/1/'' ''root'' True,
         demo_node 2 (Some 1) 1 ''/1/2/'' ''division'' True,
         demo_node 5 (Some 2) 2 ''/1/2/5/'' ''site'' False,
         demo_node 6 (Some 1) 1 ''/1/6/'' ''site'' True]\<rparr>"

text \<open>
  A service with an empty cache: on the sample database, on an unreachable one, and on
  one that rejects the first query and answers the later ones.
\<close>

definition demo_service :: service where
  "demo_service = \<lparr>permissionCache = Map.empty, db = demo_db\<rparr>"

definition demo_service_down :: service where
  "demo_service_down =
     \<lparr>permissionCache = Map.empty, db = demo_db\<lparr>available := (\<lambda>n. False)\<rparr>\<rparr>"

definition demo_service_flaky :: service where
  "demo_service_flaky =
     \<lparr>permissionCache = Map.empty, db = demo_db\<lparr>available := (\<lambda>n. n \<noteq> 0)\<rparr>\<rparr>"

text \<open>
  The service after a first successful load for role \<open>viewer\<close> (looked up at time 0,
  stored at time 10); the same service after every permission row has then been deleted
  from the tables; the service after the first load attempted on the database that
  rejects its first query.
\<close>

definition demo_warm :: service where
  "demo_warm = snd (getUserPermissions demo_service 0 10 ''viewer'')"

definition demo_revoked :: service where
  "demo_revoked = demo_warm\<lparr>db := (db demo_warm)\<lparr>role_permissions := []\<rparr>\<rparr>"


text \<open>
  A tree whose paths lack the closing separator; the flags \<open>can_manage_hierarchy\<close> all
  cleared.
\<close>

definition demo_db_unterminated :: database where
  "demo_db_unterminated =
     demo_db\<lparr>client :=
        [demo_node 1 None 0 ''/1'' ''root'' True,
         demo_node 2 (Some 1) 1 ''/1/2'' ''division'' True,
         demo_node 20 (Some 1) 1 ''/1/20'' ''division'' True]\<rparr>"

definition demo_db_unflagged :: database where
  "demo_db_unflagged =
     demo_db\<lparr>users := map (\<lambda>u. u\<lparr>u_can_manage_hierarchy := False\<rparr>) (users demo_db)\<rparr>"

text \<open>
  Role \<open>user\<close> is granted the motor dashboard, loads its permissions (looked up at time
  0, stored at time 10), and the grant is then withdrawn in the tables, which become
  those of the sample database, without the cache being cleared.
\<close>

definition demo_stale :: service where
  "demo_stale =
     (snd (getUserPermissions
        (demo_service\<lparr>db := demo_db\<lparr>role_permissions :=
           [\<lparr>rp_role_name = ''user'', rp_dashboard_id = 2, rp_can_access = True,
              rp_can_edit = True, rp_can_delete = True\<rparr>]\<rparr>\<rparr>) 0 10 ''user''))
     \<lparr>db := demo_db\<lparr>query_count := 1\<rparr>\<rparr>"

text \<open>The service after the first load, with a database that rejects the next query.\<close>

definition demo_warm_outage :: service where
  "demo_warm_outage = demo_warm\<lparr>db := (db demo_warm)\<lparr>available := (\<lambda>n. n \<noteq> 1)\<rparr>\<rparr>"

text \<open>
  A load for \<open>viewer\<close> is started on the sample service and its query is answered;
  before it resumes, every permission row is deleted and \<open>clearCache('viewer')\<close> runs;
  then the load resumes, at time 10.
\<close>

definition demo_in_flight :: "(permission_obj + (error + permission_row list)) \<times> service" where
  "demo_in_flight = getUserPermissions_begin demo_service 0 ''viewer''"

definition demo_overtaken :: service where
  "demo_overtaken =
     snd (getUserPermissions_resume
       (clearCache ((snd demo_in_flight)\<lparr>db := (db (snd demo_in_flight))\<lparr>role_permissions := []\<rparr>\<rparr>)
          (Some ''viewer''))
       10 ''viewer'' (projr (fst demo_in_flight)))"

definition demo_iot_permission :: permission where
  "demo_iot_permission =
     \<lparr>p_dashboard_id = 1, p_can_access = True, p_display_name = ''IoT Device Dashboard''\<rparr>"

section \<open>Auxiliary facts\<close>

lemmas demo_defs = demo_db_def demo_node_def demo_admin_def demo_branch_admin_def
  demo_user_def demo_viewer_def demo_service_def demo_service_down_def
  demo_service_flaky_def
  demo_db_division_off_def demo_db_site_off_def

subsection \<open>Ordering and pattern matching\<close>






lemma admin_not_branch: "\<not> str_includes ''admin'' ''_admin''"
  by simp

subsection \<open>The resolver, once the user row is found\<close>

lemma sql_statements_ignore_counter:
  "sql_user_by_id userId (d\<lparr>query_count := n\<rparr>) = sql_user_by_id userId d"
  "sql_all_clients (d\<lparr>query_count := n\<rparr>) = sql_all_clients d"
  "sql_branch_clients C (d\<lparr>query_count := n\<rparr>) = sql_branch_clients C d"
  "sql_own_client C (d\<lparr>query_count := n\<rparr>) = sql_own_client C d"
  by (simp_all add: sql_user_by_id_def sql_all_clients_def sql_branch_clients_def
      sql_own_client_def cong: list.case_cong)

lemma sql_statements_ignore_users:
  "sql_all_clients (d\<lparr>users := us\<rparr>) = sql_all_clients d"
  "sql_branch_clients C (d\<lparr>users := us\<rparr>) = sql_branch_clients C d"
  "sql_own_client C (d\<lparr>users := us\<rparr>) = sql_own_client C d"
  by (simp_all add: sql_all_clients_def sql_branch_clients_def sql_own_client_def
      cong: list.case_cong)

lemma fst_catch_empty_query:
  "fst (catch_empty (database_query d stmt))
     = (if available d (query_count d) then caught (stmt d) else Inr [])"
  by (simp add: catch_empty_def database_query_def caught_def split: sum.splits)

lemma user_lookup_head:
  assumes "[u \<leftarrow> users d. u_id u = userId] = u # us"
  shows "u \<in> set (users d) \<and> u_id u = userId"
proof -
  have "u \<in> set [u \<leftarrow> users d. u_id u = userId]" using assms by simp
  then show ?thesis by simp
qed

lemma getAccessibleClients_down:
  assumes "\<not> available d (query_count d) \<or> \<not> available d (query_count d + 1)"
  shows "fst (getAccessibleClients d userId) = Inr []"
  using assms
  by (auto simp add: getAccessibleClients_def database_query_def sql_user_by_id_def
      catch_empty_def split: list.splits)

lemma getAccessibleClients_found:
  assumes "userId \<noteq> 0"
    and "available d (query_count d)" and "available d (query_count d + 1)"
    and "[u \<leftarrow> users d. u_id u = userId] = u # us"
  shows "fst (getAccessibleClients d userId)
     = (if u_roles u = ''admin'' then caught (sql_all_clients d)
        else if str_includes (u_roles u) ''_admin'' \<and> truthy_id (u_client_id u)
          then caught (sql_branch_clients (the (u_client_id u)) d)
        else if truthy_id (u_client_id u)
          then caught (sql_own_client (the (u_client_id u)) d)
        else Inr [])"
proof -
  have q: "database_query d (sql_user_by_id userId)
      = (Inr (u # us), d\<lparr>query_count := query_count d + 1\<rparr>)"
    using assms by (simp add: database_query_def sql_user_by_id_def)
  show ?thesis
    unfolding getAccessibleClients_def
    using assms(1-3)
    by (simp add: q fst_catch_empty_query sql_statements_ignore_counter
        del: str_includes.simps)
qed

lemma filter_flag_update:
  "[u \<leftarrow> map (\<lambda>u. u\<lparr>u_can_manage_hierarchy := g u\<rparr>) us. u_id u = userId]
     = map (\<lambda>u. u\<lparr>u_can_manage_hierarchy := g u\<rparr>) [u \<leftarrow> us. u_id u = userId]"
  by (induction us) simp_all

lemma getAccessibleClients_ignores_flag:
  "fst (getAccessibleClients
          (d\<lparr>users := map (\<lambda>u. u\<lparr>u_can_manage_hierarchy := g u\<rparr>) (users d)\<rparr>) userId)
     = fst (getAccessibleClients d userId)"
proof -
  let ?d = "d\<lparr>users := map (\<lambda>u. u\<lparr>u_can_manage_hierarchy := g u\<rparr>) (users d)\<rparr>"
  consider (zero) "userId = 0"
    | (down) "\<not> available d (query_count d) \<or> \<not> available d (query_count d + 1)"
    | (up) "userId \<noteq> 0" "available d (query_count d)" "available d (query_count d + 1)"
    by blast
  then show ?thesis
  proof cases
    case zero
    then show ?thesis by (simp add: getAccessibleClients_def)
  next
    case down
    then have "\<not> available ?d (query_count ?d) \<or> \<not> available ?d (query_count ?d + 1)"
      by simp
    from getAccessibleClients_down [OF this] getAccessibleClients_down [OF down]
    show ?thesis by simp
  next
    case up
    show ?thesis
    proof (cases "[u \<leftarrow> users d. u_id u = userId]")
      case Nil
      with up show ?thesis
        by (simp add: getAccessibleClients_def database_query_def sql_user_by_id_def
            filter_flag_update)
    next
      case (Cons u us)
      have "[v \<leftarrow> users ?d. u_id v = userId]
          = u\<lparr>u_can_manage_hierarchy := g u\<rparr>
            # map (\<lambda>u. u\<lparr>u_can_manage_hierarchy := g u\<rparr>) us"
        using Cons by (simp add: filter_flag_update)
      from getAccessibleClients_found [OF up(1) _ _ this]
        getAccessibleClients_found [OF up Cons] up
      show ?thesis by (simp add: sql_statements_ignore_users)
    qed
  qed
qed

subsection \<open>The permission object and the cache\<close>

lemma sql_role_permissions_Inr: "sql_role_permissions role d = Inr (role_rows role d)"
  by (simp add: role_rows_def sql_role_permissions_def)

lemma role_rows_member:
  "r \<in> set (role_rows role d) \<Longrightarrow>
     \<exists>rp \<in> set (role_permissions d). \<exists>dd \<in> set (dashboards d).
       rp_role_name rp = role \<and> rp_dashboard_id rp = d_id dd \<and> d_is_active dd
       \<and> rp_can_access rp \<and> dashboard_name r = d_name dd"
  by (fastforce simp add: role_rows_def sql_role_permissions_def)

lemma permission_object_lookup:
  "permission_object rows D = Some p \<Longrightarrow> \<exists>r \<in> set rows. dashboard_name r = D"
  unfolding permission_object_def
  by (induction rows arbitrary: p rule: rev_induct) (auto split: if_splits)

lemma stored_permissions_entry:
  assumes "stored_permissions d role D = Some p"
  shows "\<exists>rp \<in> set (role_permissions d). \<exists>dd \<in> set (dashboards d).
       rp_role_name rp = role \<and> rp_dashboard_id rp = d_id dd \<and> d_is_active dd
       \<and> rp_can_access rp \<and> d_name dd = D"
proof -
  from assms obtain r where "r \<in> set (role_rows role d)" and "dashboard_name r = D"
    unfolding stored_permissions_def by (blast dest: permission_object_lookup)
  from role_rows_member [OF this(1)] this(2) show ?thesis by fastforce
qed

lemma getUserPermissions_hit:
  assumes "role \<noteq> []" and "permissionCache s (cacheKey role) = Some cached"
    and "now - timestamp cached < cacheTimeout"
  shows "getUserPermissions s now stamp role = (Inr (permissions cached), s)"
  using assms by (simp add: getUserPermissions_def Let_def)

lemma getUserPermissions_load:
  assumes "role \<noteq> []" and "\<not> cache_live s now role"
    and "available (db s) (query_count (db s))"
  shows "getUserPermissions s now stamp role =
           (Inr (stored_permissions (db s) role),
            s\<lparr>permissionCache := (permissionCache s)(cacheKey role \<mapsto>
                 \<lparr>permissions = stored_permissions (db s) role, timestamp = stamp\<rparr>),
              db := (db s)\<lparr>query_count := query_count (db s) + 1\<rparr>\<rparr>)"
  using assms
  by (auto simp add: getUserPermissions_def Let_def cache_live_def database_query_def
      stored_permissions_def sql_role_permissions_Inr split: option.splits)

lemma getUserPermissions_failed:
  assumes "role \<noteq> []" and "\<not> cache_live s now role"
    and "\<not> available (db s) (query_count (db s))"
  shows "getUserPermissions s now stamp role =
           (Inr Map.empty, s\<lparr>db := (db s)\<lparr>query_count := query_count (db s) + 1\<rparr>\<rparr>)"
  using assms
  by (auto simp add: getUserPermissions_def Let_def cache_live_def database_query_def
      split: option.splits)

lemma getUserPermissions_resolved:
  assumes "cache_current s role"
  shows "\<exists>obj. fst (getUserPermissions s now stamp role) = Inr obj
           \<and> (obj = Map.empty \<or> obj = stored_permissions (db s) role)"
proof (cases "role = []")
  case True
  then show ?thesis by (simp add: getUserPermissions_def Let_def)
next
  case False
  show ?thesis
  proof (cases "cache_live s now role")
    case True
    then obtain cached where c: "permissionCache s (cacheKey role) = Some cached"
        "now - timestamp cached < cacheTimeout"
      by (auto simp add: cache_live_def split: option.splits)
    with assms have "permissions cached = stored_permissions (db s) role"
      by (simp add: cache_current_def)
    with getUserPermissions_hit [OF False c] show ?thesis by simp
  next
    case miss: False
    show ?thesis
    proof (cases "available (db s) (query_count (db s))")
      case True
      from getUserPermissions_load [OF False miss True] show ?thesis by simp
    next
      case False
      from getUserPermissions_failed [OF \<open>role \<noteq> []\<close> miss False] show ?thesis by simp
    qed
  qed
qed

lemma hasPermission_lookup:
  assumes "role \<noteq> ''admin''" and "fst (getUserPermissions s now stamp role) = Inr obj"
    and "obj D = None"
  shows "fst (hasPermission s now stamp role D) = Inr False"
  using assms by (auto simp add: hasPermission_def split: prod.splits sum.splits)

lemma distinct_map_eq:
  "distinct (map f xs) \<Longrightarrow> x \<in> set xs \<Longrightarrow> y \<in> set xs \<Longrightarrow> f x = f y \<Longrightarrow> x = y"
  by (meson distinct_map inj_onD)

subsection \<open>The cache stays current\<close>

text \<open>
  The hypothesis \<open>cache_current\<close> of the statements on \<open>hasPermission\<close> is an
  invariant of the service: it holds of the empty cache, every call of
  \<open>getUserPermissions\<close> preserves it for every role, and it holds again after any change
  of the tables that is followed by \<open>clearCache\<close>.
\<close>

lemma cacheKey_inject: "cacheKey r = cacheKey r' \<longleftrightarrow> r = r'"
  by (simp add: cacheKey_def)

lemma stored_permissions_counter:
  "stored_permissions (d\<lparr>query_count := n\<rparr>) r = stored_permissions d r"
  by (simp add: stored_permissions_def role_rows_def sql_role_permissions_def)

lemma cache_current_empty: "permissionCache s = Map.empty \<Longrightarrow> cache_current s r"
  by (simp add: cache_current_def)

lemma cache_current_getUserPermissions:
  assumes "cache_current s r"
  shows "cache_current (snd (getUserPermissions s now stamp role)) r"
proof (cases "role = [] \<or> cache_live s now role")
  case True
  then have "snd (getUserPermissions s now stamp role) = s"
    by (auto simp add: getUserPermissions_def Let_def cache_live_def split: option.splits)
  with assms show ?thesis by simp
next
  case False
  then have role: "role \<noteq> []" and miss: "\<not> cache_live s now role" by simp_all
  show ?thesis
  proof (cases "available (db s) (query_count (db s))")
    case True
    from getUserPermissions_load [OF role miss True] assms show ?thesis
      by (auto simp add: cache_current_def cacheKey_inject stored_permissions_counter
          split: option.splits)
  next
    case False
    from getUserPermissions_failed [OF role miss False] assms show ?thesis
      by (auto simp add: cache_current_def stored_permissions_counter split: option.splits)
  qed
qed

lemma cache_current_clearCache:
  "cache_current (clearCache (s\<lparr>db := d\<rparr>) None) r"
  "R \<noteq> [] \<Longrightarrow> cache_current (clearCache (s\<lparr>db := d\<rparr>) (Some R)) R"
  by (simp_all add: cache_current_def)

subsection \<open>Paths and subtrees\<close>










subsection \<open>Further facts on the two services\<close>

lemma getAccessibleClients_returns:
  "\<exists>rows. fst (getAccessibleClients d userId) = Inr rows"
  by (auto simp add: getAccessibleClients_def database_query_def sql_user_by_id_def
      catch_empty_def split: list.splits sum.splits)

lemma getUserPermissions_resolved_live:
  assumes "cache_live s now role \<longrightarrow> cache_current s role"
  shows "\<exists>obj. fst (getUserPermissions s now stamp role) = Inr obj
           \<and> (obj = Map.empty \<or> obj = stored_permissions (db s) role)"
proof (cases "cache_live s now role")
  case True
  with assms have "cache_current s role" by simp
  then show ?thesis by (rule getUserPermissions_resolved)
next
  case miss: False
  show ?thesis
  proof (cases "role = []")
    case True
    then show ?thesis by (simp add: getUserPermissions_def)
  next
    case False
    show ?thesis
    proof (cases "available (db s) (query_count (db s))")
      case True
      from getUserPermissions_load [OF False miss True] show ?thesis by simp
    next
      case down: False
      from getUserPermissions_failed [OF False miss down] show ?thesis by simp
    qed
  qed
qed

lemma getUserPermissions_halves:
  "getUserPermissions s now stamp role =
     (case getUserPermissions_begin s now role of
        (Inl obj, s1) \<Rightarrow> (Inr obj, s1)
      | (Inr answer, s1) \<Rightarrow> getUserPermissions_resume s1 stamp role answer)"
  by (auto simp add: getUserPermissions_def getUserPermissions_begin_def
      getUserPermissions_resume_def Let_def split: prod.splits sum.splits)

subsection \<open>The sample service\<close>

lemma demo_stored_viewer:
  "stored_permissions demo_db ''viewer'' = [''iot_dashboard'' \<mapsto> demo_iot_permission]"
  by (simp add: stored_permissions_def role_rows_def sql_role_permissions_def
      permission_object_def demo_defs demo_iot_permission_def)

lemma demo_warm_eq:
  "demo_warm = \<lparr>permissionCache = [cacheKey ''viewer'' \<mapsto>
       \<lparr>permissions = [''iot_dashboard'' \<mapsto> demo_iot_permission], timestamp = 10\<rparr>],
     db = demo_db\<lparr>query_count := 1\<rparr>\<rparr>"
proof -
  have "\<not> cache_live demo_service 0 ''viewer''"
    by (simp add: cache_live_def demo_service_def)
  moreover have "available (db demo_service) (query_count (db demo_service))"
    by (simp add: demo_defs)
  ultimately show ?thesis
    unfolding demo_warm_def
    by (simp add: getUserPermissions_load demo_stored_viewer [simplified demo_db_def]
        demo_service_def demo_db_def)
qed

lemma demo_revoked_eq:
  "demo_revoked = \<lparr>permissionCache = [cacheKey ''viewer'' \<mapsto>
       \<lparr>permissions = [''iot_dashboard'' \<mapsto> demo_iot_permission], timestamp = 10\<rparr>],
     db = demo_db\<lparr>role_permissions := [], query_count := 1\<rparr>\<rparr>"
  by (simp add: demo_revoked_def demo_warm_eq demo_db_def)

lemma demo_stored_revoked: "stored_permissions (db demo_revoked) R = Map.empty"
  by (simp add: stored_permissions_def role_rows_def sql_role_permissions_def
      permission_object_def demo_revoked_eq demo_db_def)



section \<open>Dashboard permissions\<close>

text \<open>
  Claim C1, as the code has it. For every non-empty dashboard name, \<open>hasPermission\<close>
  answers \<open>true\<close> to role \<open>admin\<close> and leaves the service as it found it: neither the
  cache nor the database is consulted, whatever they hold. For every other role \<open>R\<close> and
  every dashboard name \<open>D\<close> for which \<open>R\<close> has no permission entry, the answer is
  \<open>false\<close>; here the cache holds for \<open>R\<close> only what was loaded from the present
  tables. The guard \<open>!role || !dashboardName\<close> runs before the admin test, so an
  empty dashboard name is refused for \<open>admin\<close> as well.
\<close>

theorem hasPermission_admin_bypass:
  "(D \<noteq> [] \<longrightarrow> hasPermission s now stamp ''admin'' D = (Inr True, s))
   \<and> (R \<noteq> ''admin'' \<longrightarrow> cache_current s R \<longrightarrow> \<not> has_entry (db s) R D
        \<longrightarrow> fst (hasPermission s now stamp R D) = Inr False)"
proof -
  have bypass: "hasPermission s now stamp ''admin'' D = (Inr True, s)" if "D \<noteq> []"
    using that by (simp add: hasPermission_def)
  have deny: "fst (hasPermission s now stamp R D) = Inr False"
    if R: "R \<noteq> ''admin''" and cur: "cache_current s R" and no: "\<not> has_entry (db s) R D"
  proof -
    from getUserPermissions_resolved [OF cur] obtain obj where
      obj: "fst (getUserPermissions s now stamp R) = Inr obj"
        "obj = Map.empty \<or> obj = stored_permissions (db s) R" by blast
    have "stored_permissions (db s) R D = None"
    proof (rule ccontr)
      assume "stored_permissions (db s) R D \<noteq> None"
      then obtain p where "stored_permissions (db s) R D = Some p" by blast
      from stored_permissions_entry [OF this] have "has_entry (db s) R D"
        unfolding has_entry_def by blast
      with no show False by simp
    qed
    with obj(2) have "obj D = None" by auto
    from hasPermission_lookup [OF R obj(1) this] show ?thesis .
  qed
  from bypass deny show ?thesis by blast
qed

text \<open>
  On the sample database: \<open>admin\<close> may open the motor dashboard, \<open>viewer\<close>, who has
  an entry for the IoT dashboard only, may not.
\<close>

theorem hasPermission_admin_bypass_witness:
  "hasPermission demo_service 0 0 ''admin'' ''motor_dashboard'' = (Inr True, demo_service)
   \<and> fst (hasPermission demo_service 0 0 ''viewer'' ''motor_dashboard'') = Inr False"
proof -
  have cur: "cache_current demo_service ''viewer''"
    by (simp add: cache_current_def demo_service_def)
  have no: "\<not> has_entry (db demo_service) ''viewer'' ''motor_dashboard''"
    by (simp add: has_entry_def demo_defs)
  from hasPermission_admin_bypass [of "''motor_dashboard''" demo_service 0 0 "''viewer''"]
    cur no
  show ?thesis by simp
qed

text \<open>With an empty dashboard name the guard answers \<open>false\<close> to \<open>admin\<close> too.\<close>

theorem hasPermission_admin_empty_dashboard:
  "fst (hasPermission demo_service 0 0 ''admin'' []) = Inr False"
  by (simp add: hasPermission_def)

text \<open>
  Claim C6, as the code has it. Let role \<open>R\<close>, other than \<open>admin\<close>, have a permission
  entry for dashboard \<open>D\<close> whose \<open>can_access\<close> is false. Then \<open>hasPermission\<close> answers
  \<open>false\<close>, whatever the entry's \<open>can_edit\<close> and \<open>can_delete\<close> are, whenever the
  permissions of \<open>R\<close> are read from the tables or from a cache entry that was loaded from
  the present tables: the statement selects rows with \<open>can_access = 1\<close> only and never
  reads the other two flags. The tables satisfy their two uniqueness constraints. A live
  cache entry loaded while access was still granted keeps the old answer until it expires
  or is evicted.
\<close>

theorem denied_entry_gates_access:
  assumes "R \<noteq> ''admin''" and "unique_keys (db s)"
    and "cache_live s now R \<longrightarrow> cache_current s R"
    and "rp \<in> set (role_permissions (db s))" and "dd \<in> set (dashboards (db s))"
    and "rp_role_name rp = R" and "rp_dashboard_id rp = d_id dd" and "d_name dd = D"
    and "\<not> rp_can_access rp"
  shows "fst (hasPermission s now stamp R D) = Inr False"
proof -
  from getUserPermissions_resolved_live [OF assms(3)] obtain obj where
    obj: "fst (getUserPermissions s now stamp R) = Inr obj"
      "obj = Map.empty \<or> obj = stored_permissions (db s) R" by blast
  have "stored_permissions (db s) R D = None"
  proof (rule ccontr)
    assume "stored_permissions (db s) R D \<noteq> None"
    then obtain p where "stored_permissions (db s) R D = Some p" by blast
    from stored_permissions_entry [OF this] obtain rp' dd' where
      j: "rp' \<in> set (role_permissions (db s))" "dd' \<in> set (dashboards (db s))"
         "rp_role_name rp' = R" "rp_dashboard_id rp' = d_id dd'" "rp_can_access rp'"
         "d_name dd' = D" by blast
    from assms(2) have dn: "distinct (map d_name (dashboards (db s)))"
      and dk: "distinct (map (\<lambda>rp. (rp_role_name rp, rp_dashboard_id rp))
                 (role_permissions (db s)))"
      by (simp_all add: unique_keys_def)
    from distinct_map_eq [OF dn j(2) assms(5)] j(6) assms(8) have "dd' = dd" by simp
    with j(4) assms(7) have "rp_dashboard_id rp' = rp_dashboard_id rp" by simp
    with distinct_map_eq [OF dk j(1) assms(4)] j(3) assms(6) have "rp' = rp" by simp
    with j(5) assms(9) show False by simp
  qed
  with obj(2) have "obj D = None" by auto
  from hasPermission_lookup [OF assms(1) obj(1) this] show ?thesis .
qed

text \<open>
  Role \<open>user\<close> has the entry (motor dashboard, no access, edit, delete) and is refused:
  on an empty cache, and also with a stale entry once that entry has expired.
\<close>

theorem denied_entry_gates_access_witness:
  "fst (hasPermission demo_service 0 0 ''user'' ''motor_dashboard'') = Inr False
   \<and> fst (hasPermission demo_stale 300010 300020 ''user'' ''motor_dashboard'') = Inr False"
proof -
  let ?rp = "\<lparr>rp_role_name = ''user'', rp_dashboard_id = 2, rp_can_access = False,
      rp_can_edit = True, rp_can_delete = True\<rparr>"
  let ?dd = "\<lparr>d_id = 2, d_name = ''motor_dashboard'',
      d_display_name = ''Motor Device Dashboard'', d_is_active = True\<rparr>"
  have u: "unique_keys (db demo_service)" by (simp add: unique_keys_def demo_defs)
  have c: "cache_live demo_service 0 ''user'' \<longrightarrow> cache_current demo_service ''user''"
    by (simp add: cache_current_def demo_service_def)
  have r: "?rp \<in> set (role_permissions (db demo_service))" by (simp add: demo_defs)
  have d: "?dd \<in> set (dashboards (db demo_service))" by (simp add: demo_defs)
  have db: "db demo_stale = demo_db\<lparr>query_count := 1\<rparr>" by (simp add: demo_stale_def)
  have u': "unique_keys (db demo_stale)" by (simp add: db unique_keys_def demo_defs)
  have c': "cache_live demo_stale 300010 ''user'' \<longrightarrow> cache_current demo_stale ''user''"
    by (simp add: cache_live_def demo_stale_def getUserPermissions_def Let_def demo_defs
        database_query_def sql_role_permissions_def cacheKey_def cacheTimeout_def)
  have r': "?rp \<in> set (role_permissions (db demo_stale))" by (simp add: db demo_defs)
  have d': "?dd \<in> set (dashboards (db demo_stale))" by (simp add: db demo_defs)
  from denied_entry_gates_access [OF _ u c r d, of "''motor_dashboard''" 0]
    denied_entry_gates_access [OF _ u' c' r' d', of "''motor_dashboard''" 300020]
  show ?thesis by simp
qed

text \<open>
  The entry of \<open>user\<close> for the motor dashboard has \<open>can_access\<close> false in the tables,
  and \<open>can_edit\<close> and \<open>can_delete\<close> true. The cache entry of \<open>user\<close> was stored at time
  10, when access was granted; at time 20 \<open>hasPermission\<close> still answers \<open>true\<close>.
\<close>

theorem stale_entry_still_grants:
  "\<lparr>rp_role_name = ''user'', rp_dashboard_id = 2, rp_can_access = False,
      rp_can_edit = True, rp_can_delete = True\<rparr> \<in> set (role_permissions (db demo_stale))
   \<and> stored_permissions (db demo_stale) ''user'' ''motor_dashboard'' = None
   \<and> fst (hasPermission demo_stale 20 30 ''user'' ''motor_dashboard'') = Inr True"
  by (simp add: demo_stale_def hasPermission_def getUserPermissions_def Let_def demo_defs
      database_query_def sql_role_permissions_def permission_object_def cacheKey_def
      cacheTimeout_def stored_permissions_def role_rows_def)

text \<open>
  Claim C7, as the code has it. No error ever reaches the caller of
  \<open>getUserPermissions\<close>, \<open>hasPermission\<close> or \<open>getAccessibleClients\<close>: each result is an
  \<open>Inr\<close>. When the storage read of a permission load fails, the \<open>catch\<close> block returns
  the empty permission object and stores nothing in the cache, so \<open>hasPermission\<close>
  answers \<open>false\<close> to every role but \<open>admin\<close>; when the database is unreachable,
  \<open>getAccessibleClients\<close> returns the empty array.
\<close>

theorem storage_failure_swallowed:
  "(\<exists>obj. fst (getUserPermissions s now stamp role) = Inr obj)
   \<and> (\<exists>b. fst (hasPermission s now stamp role D) = Inr b)
   \<and> (\<exists>rows. fst (getAccessibleClients d userId) = Inr rows)
   \<and> (\<not> available (db s) (query_count (db s)) \<longrightarrow> \<not> cache_live s now role \<longrightarrow>
        fst (getUserPermissions s now stamp role) = Inr Map.empty
        \<and> permissionCache (snd (getUserPermissions s now stamp role)) = permissionCache s
        \<and> (role \<noteq> ''admin'' \<longrightarrow> fst (hasPermission s now stamp role D) = Inr False))
   \<and> (\<not> available d (query_count d) \<or> \<not> available d (query_count d + 1) \<longrightarrow>
        fst (getAccessibleClients d userId) = Inr [])"
proof -
  have up: "\<exists>obj. fst (getUserPermissions s now stamp role) = Inr obj"
    by (auto simp add: getUserPermissions_def Let_def database_query_def sql_role_permissions_def
        split: option.splits)
  then have hp: "\<exists>b. fst (hasPermission s now stamp role D) = Inr b"
    by (auto simp add: hasPermission_def split: prod.splits sum.splits)
  have ac: "\<exists>rows. fst (getAccessibleClients d userId) = Inr rows"
    by (auto simp add: getAccessibleClients_def database_query_def sql_user_by_id_def
        catch_empty_def split: list.splits sum.splits)
  have down: "fst (getUserPermissions s now stamp role) = Inr Map.empty
        \<and> permissionCache (snd (getUserPermissions s now stamp role)) = permissionCache s
        \<and> (role \<noteq> ''admin'' \<longrightarrow> fst (hasPermission s now stamp role D) = Inr False)"
    if "\<not> available (db s) (query_count (db s))" "\<not> cache_live s now role"
  proof (cases "role = []")
    case True
    then show ?thesis by (simp add: getUserPermissions_def Let_def hasPermission_def)
  next
    case False
    from getUserPermissions_failed [OF False that(2) that(1)] show ?thesis
      by (auto simp add: hasPermission_def)
  qed
  have off: "fst (getAccessibleClients d userId) = Inr []"
    if "\<not> available d (query_count d) \<or> \<not> available d (query_count d + 1)"
    using that by (rule getAccessibleClients_down)
  from up hp ac down off show ?thesis by blast
qed

text \<open>The sample service on the unreachable database.\<close>

theorem storage_failure_swallowed_witness:
  "fst (getUserPermissions demo_service_down 0 10 ''viewer'') = Inr Map.empty
   \<and> permissionCache (snd (getUserPermissions demo_service_down 0 10 ''viewer''))
       = permissionCache demo_service_down
   \<and> fst (hasPermission demo_service_down 0 10 ''viewer'' ''iot_dashboard'') = Inr False
   \<and> fst (getAccessibleClients (db demo_service_down) 3) = Inr []"
proof -
  have a: "\<not> available (db demo_service_down) (query_count (db demo_service_down))"
    by (simp add: demo_defs)
  have l: "\<not> cache_live demo_service_down 0 ''viewer''"
    by (simp add: cache_live_def demo_service_down_def)
  from storage_failure_swallowed [of demo_service_down 0 10 "''viewer''" "''iot_dashboard''"
      "db demo_service_down" 3] a l
  show ?thesis by simp
qed

text \<open>
  Role \<open>viewer\<close> may open the IoT dashboard. With the database unreachable, the load
  returns an ordinary empty object, not an error, and the same question is answered
  \<open>false\<close>.
\<close>

theorem storage_failure_becomes_deny:
  "fst (hasPermission demo_service 0 10 ''viewer'' ''iot_dashboard'') = Inr True
   \<and> fst (hasPermission demo_service_down 0 10 ''viewer'' ''iot_dashboard'') = Inr False
   \<and> \<not> isl (fst (getUserPermissions demo_service_down 0 10 ''viewer''))
   \<and> projr (fst (getUserPermissions demo_service_down 0 10 ''viewer'')) ''iot_dashboard''
       = None"
  by (simp add: hasPermission_def getUserPermissions_def Let_def demo_defs
      database_query_def sql_role_permissions_def permission_object_def cacheKey_def)

section \<open>The time-to-live of the cache\<close>




text \<open>
  Claim C9, as the code has it. Let \<open>R\<close> be a role name, hence not empty.
  \<open>clearCache(R)\<close> removes the entry of \<open>R\<close>, and the next \<open>getUserPermissions(R)\<close>,
  at whatever time, sends one query. When the query is answered, the call returns the
  permission state the tables hold; when it is rejected, the \<open>catch\<close> block returns the
  empty object instead. \<open>clearCache()\<close> without argument empties the cache. The calls run
  one after the other here.
\<close>

theorem clearCache_forces_reload:
  assumes "R \<noteq> []"
  shows "permissionCache (clearCache s (Some R)) (cacheKey R) = None
       \<and> query_count (db (snd (getUserPermissions (clearCache s (Some R)) now stamp R)))
           = query_count (db s) + 1
       \<and> (available (db s) (query_count (db s)) \<longrightarrow>
            fst (getUserPermissions (clearCache s (Some R)) now stamp R)
              = Inr (stored_permissions (db s) R))
       \<and> (\<not> available (db s) (query_count (db s)) \<longrightarrow>
            fst (getUserPermissions (clearCache s (Some R)) now stamp R) = Inr Map.empty)
       \<and> permissionCache (clearCache s None) = Map.empty"
proof -
  let ?s = "clearCache s (Some R)"
  have none: "permissionCache ?s (cacheKey R) = None" and dbs: "db ?s = db s"
    using assms by simp_all
  then have miss: "\<not> cache_live ?s now R" by (simp add: cache_live_def)
  have cnt: "query_count (db (snd (getUserPermissions ?s now stamp R))) = query_count (db s) + 1"
  proof (cases "available (db s) (query_count (db s))")
    case True
    with getUserPermissions_load [OF assms miss] dbs show ?thesis by simp
  next
    case False
    with getUserPermissions_failed [OF assms miss] dbs show ?thesis by simp
  qed
  have res: "fst (getUserPermissions ?s now stamp R) = Inr (stored_permissions (db s) R)"
    if "available (db s) (query_count (db s))"
    using getUserPermissions_load [OF assms miss] that dbs by simp
  have rej: "fst (getUserPermissions ?s now stamp R) = Inr Map.empty"
    if "\<not> available (db s) (query_count (db s))"
    using getUserPermissions_failed [OF assms miss] that dbs by simp
  from none cnt res rej show ?thesis by simp
qed

text \<open>
  The entry of \<open>viewer\<close>, stored at time 10, is live at time 20, and the permissions have
  been deleted since. After \<open>clearCache('viewer')\<close> the call at time 20 sends a query
  and returns the empty object, which is what the tables hold. On the database that
  rejects this query the call returns the empty object as well.
\<close>

theorem clearCache_forces_reload_witness:
  "cache_live demo_revoked 20 ''viewer''
   \<and> query_count (db demo_revoked) = 1
   \<and> query_count (db (snd (getUserPermissions
        (clearCache demo_revoked (Some ''viewer'')) 20 30 ''viewer''))) = 2
   \<and> fst (getUserPermissions (clearCache demo_revoked (Some ''viewer'')) 20 30 ''viewer'')
       = Inr Map.empty
   \<and> fst (getUserPermissions (clearCache demo_warm_outage (Some ''viewer'')) 20 30 ''viewer'')
       = Inr Map.empty
   \<and> permissionCache (clearCache demo_warm None) = Map.empty"
proof -
  have l: "cache_live demo_revoked 20 ''viewer''"
    by (simp add: cache_live_def demo_revoked_eq cacheTimeout_def)
  have u: "available (db demo_revoked) (query_count (db demo_revoked))"
    by (simp add: demo_revoked_eq demo_db_def)
  have q: "query_count (db demo_revoked) = 1" by (simp add: demo_revoked_eq)
  have o: "\<not> available (db demo_warm_outage) (query_count (db demo_warm_outage))"
    by (simp add: demo_warm_outage_def demo_warm_eq)
  from clearCache_forces_reload [of "''viewer''" demo_revoked 20 30]
    clearCache_forces_reload [of "''viewer''" demo_warm_outage 20 30] l u q o
  show ?thesis by (simp add: demo_stored_revoked)
qed

text \<open>
  The tables grant \<open>viewer\<close> the IoT dashboard. After \<open>clearCache('viewer')\<close> the next
  call sends its query, the second one, which is rejected; the call returns an ordinary
  object without that grant.
\<close>

theorem reload_after_clearCache_rejected:
  "stored_permissions (db demo_warm_outage) ''viewer'' ''iot_dashboard''
     = Some demo_iot_permission
   \<and> query_count (db demo_warm_outage) = 1
   \<and> query_count (db (snd (getUserPermissions
        (clearCache demo_warm_outage (Some ''viewer'')) 20 30 ''viewer''))) = 2
   \<and> \<not> isl (fst (getUserPermissions
        (clearCache demo_warm_outage (Some ''viewer'')) 20 30 ''viewer''))
   \<and> projr (fst (getUserPermissions
        (clearCache demo_warm_outage (Some ''viewer'')) 20 30 ''viewer'')) ''iot_dashboard''
       = None"
  by (simp add: demo_warm_outage_def demo_warm_eq getUserPermissions_def Let_def
      database_query_def cacheKey_def stored_permissions_def role_rows_def
      sql_role_permissions_def permission_object_def demo_db_def demo_iot_permission_def)

text \<open>
  Two further observations. With an empty role name, \<open>clearCache('')\<close> evicts the live
  entry of \<open>viewer\<close>, and the following \<open>getUserPermissions('')\<close> sends no query: the
  counter stays at 1. And a load that was waiting for its answer while the tables were
  changed and \<open>clearCache('viewer')\<close> ran stores the rows it had read before: the call
  that follows finds this entry live, sends no query, and returns a grant the tables no
  longer hold.
\<close>

lemma clearCache_empty_role:
  "cache_live demo_warm 20 ''viewer''
   \<and> permissionCache (clearCache demo_warm (Some [])) (cacheKey ''viewer'') = None
   \<and> query_count (db demo_warm) = 1
   \<and> query_count (db (snd (getUserPermissions (clearCache demo_warm (Some [])) 20 30 [])))
       = 1"
  by (simp add: demo_warm_eq getUserPermissions_def Let_def cache_live_def cacheTimeout_def)

lemma load_in_flight_across_clearCache:
  "stored_permissions (db demo_overtaken) ''viewer'' ''iot_dashboard'' = None
   \<and> query_count (db demo_overtaken) = 1
   \<and> projr (fst (getUserPermissions demo_overtaken 20 30 ''viewer'')) ''iot_dashboard''
       = Some demo_iot_permission
   \<and> query_count (db (snd (getUserPermissions demo_overtaken 20 30 ''viewer''))) = 1"
  by (simp add: demo_overtaken_def demo_in_flight_def getUserPermissions_begin_def
      getUserPermissions_resume_def getUserPermissions_def Let_def demo_defs
      database_query_def sql_role_permissions_def permission_object_def cacheKey_def
      demo_iot_permission_def stored_permissions_def role_rows_def cacheTimeout_def)

section \<open>Accessible clients\<close>







text \<open>
  Paths without the closing separator are not well formed, and there the prefix test
  reaches beyond the subtree: the branch admin of node 2, with path \<open>/1/2\<close>, also
  receives the sibling 20, with path \<open>/1/20\<close>.
\<close>

lemma unterminated_paths_match_sibling:
  "fst (getAccessibleClients demo_db_unterminated 2)
     = Inr [demo_node 2 (Some 1) 1 ''/1/2'' ''division'' True,
            demo_node 20 (Some 1) 1 ''/1/20'' ''division'' True]"
  by (simp add: getAccessibleClients_def demo_defs demo_db_unterminated_def database_query_def
      sql_user_by_id_def sql_branch_clients_def catch_empty_def order_by_hierarchy_path_def)

text \<open>
  Claim C4. For a principal whose role is neither \<open>admin\<close> nor contains \<open>_admin\<close>, and
  whose \<open>client_id\<close> is \<open>C\<close>, \<open>getAccessibleClients\<close> returns rows of client \<open>C\<close>
  only, all active, and at least one when \<open>C\<close> is active: the set of returned ids is
  exactly \<open>{C}\<close>, without descendants, parent or siblings. Ids are positive
  (\<open>IDENTITY(1,1)\<close>), and the two queries are answered.
\<close>

theorem regular_own_client:
  assumes "userId \<noteq> 0"
    and "available d (query_count d)" and "available d (query_count d + 1)"
    and found: "[u \<leftarrow> users d. u_id u = userId] = u # us"
    and role: "u_roles u \<noteq> ''admin''" "\<not> str_includes (u_roles u) ''_admin''"
    and assigned: "u_client_id u = Some C" "C \<noteq> 0"
    and active: "\<exists>c \<in> set (client d). c_client_id c = C \<and> c_is_active c"
  shows "\<exists>rows. fst (getAccessibleClients d userId) = Inr rows
           \<and> c_client_id ` set rows = {C} \<and> (\<forall>c \<in> set rows. c_is_active c)"
proof -
  let ?rows = "[c \<leftarrow> client d. c_client_id c = C \<and> c_is_active c]"
  from getAccessibleClients_found [OF assms(1-3) found] role assigned
  have "fst (getAccessibleClients d userId) = Inr ?rows"
    by (simp add: sql_own_client_def caught_def)
  moreover from active have "c_client_id ` set ?rows = {C}" by auto
  ultimately show ?thesis by auto
qed

text \<open>
  The sample user is assigned to division 2, which has the child site 5 and the parent
  root 1; the result is node 2 alone.
\<close>

theorem regular_own_client_witness:
  "\<exists>rows. fst (getAccessibleClients demo_db 3) = Inr rows
     \<and> c_client_id ` set rows = {2}"
proof -
  have h: "[u \<leftarrow> users demo_db. u_id u = 3] = demo_user # []"
    by (simp add: demo_defs)
  have a: "\<exists>c \<in> set (client demo_db). c_client_id c = 2 \<and> c_is_active c"
    by (simp add: demo_defs)
  from regular_own_client [OF _ _ _ h _ _ _ _ a] obtain rows where
    "fst (getAccessibleClients demo_db 3) = Inr rows" and "c_client_id ` set rows = {2}"
    by (auto simp add: demo_defs)
  then show ?thesis by blast
qed

text \<open>
  Claim C5. For a principal without \<open>client_id\<close> whose role is not \<open>admin\<close>,
  \<open>getAccessibleClients\<close> returns the empty array as an ordinary result (\<open>Inr []\<close>),
  never an error, whether or not the database answers.
\<close>

theorem no_assigned_client_empty:
  assumes "\<forall>u \<in> set (users d). u_id u = userId
             \<longrightarrow> u_client_id u = None \<and> u_roles u \<noteq> ''admin''"
  shows "fst (getAccessibleClients d userId) = Inr []"
proof (cases "[u \<leftarrow> users d. u_id u = userId]")
  case Nil
  then show ?thesis
    by (simp add: getAccessibleClients_def database_query_def sql_user_by_id_def)
next
  case (Cons u us)
  from user_lookup_head [OF Cons] assms
  have "u_client_id u = None" and "u_roles u \<noteq> ''admin''" by auto
  with Cons show ?thesis
    by (simp add: getAccessibleClients_def database_query_def sql_user_by_id_def)
qed

text \<open>The sample viewer has no client and receives the empty array.\<close>

theorem no_assigned_client_empty_witness:
  "demo_viewer \<in> set (users demo_db) \<and> u_client_id demo_viewer = None
   \<and> fst (getAccessibleClients demo_db (u_id demo_viewer)) = Inr []"
  using no_assigned_client_empty [of demo_db 4]
  by (simp add: demo_defs)

text \<open>
  Claim C10. Once the user row is found, \<open>getAccessibleClients\<close> runs the branch
  statement exactly when the role name contains \<open>_admin\<close> and a \<open>client_id\<close> is
  present. A role name without \<open>_admin\<close> gets the admin statement (role \<open>admin\<close>), its
  own client, or nothing; if it is not \<open>admin\<close>, every returned row is the principal's
  own client. The flag \<open>can_manage_hierarchy\<close> plays no part: rewriting the flags of all
  users leaves the result unchanged. \<open>canUserManageClient\<close> does read the flag: for a
  principal other than \<open>admin\<close>, without the flag the answer is \<open>false\<close>; and for a
  client id other than 0 the answer is \<open>true\<close> exactly when the role is \<open>admin\<close>, or
  the flag is set, a \<open>client_id\<close> is present and the client is among those
  \<open>getAccessibleClients\<close> returns.
\<close>

theorem branch_case_by_role_name:
  assumes "userId \<noteq> 0"
    and "available d (query_count d)" and "available d (query_count d + 1)"
    and "[u \<leftarrow> users d. u_id u = userId] = u # us"
  shows "(str_includes (u_roles u) ''_admin'' \<longrightarrow> truthy_id (u_client_id u) \<longrightarrow>
            fst (getAccessibleClients d userId)
              = caught (sql_branch_clients (the (u_client_id u)) d))
       \<and> (\<not> str_includes (u_roles u) ''_admin'' \<longrightarrow>
            fst (getAccessibleClients d userId)
              = (if u_roles u = ''admin'' then sql_all_clients d
                 else if truthy_id (u_client_id u)
                   then sql_own_client (the (u_client_id u)) d
                 else Inr []))
       \<and> (\<not> str_includes (u_roles u) ''_admin'' \<longrightarrow> u_roles u \<noteq> ''admin'' \<longrightarrow>
            (\<exists>rows. fst (getAccessibleClients d userId) = Inr rows
               \<and> (\<forall>c \<in> set rows. u_client_id u = Some (c_client_id c))))
       \<and> fst (getAccessibleClients
                (d\<lparr>users := map (\<lambda>u. u\<lparr>u_can_manage_hierarchy := g u\<rparr>) (users d)\<rparr>) userId)
           = fst (getAccessibleClients d userId)
       \<and> (\<not> u_can_manage_hierarchy u \<longrightarrow> u_roles u \<noteq> ''admin'' \<longrightarrow>
            fst (canUserManageClient d userId clientId) = Inr False)
       \<and> (clientId \<noteq> 0 \<longrightarrow>
            fst (canUserManageClient d userId clientId)
              = Inr (u_roles u = ''admin''
                     \<or> (u_can_manage_hierarchy u \<and> truthy_id (u_client_id u)
                         \<and> (\<exists>c \<in> set (projr (fst (getAccessibleClients
                                  (d\<lparr>query_count := query_count d + 1\<rparr>) userId))).
                                c_client_id c = clientId))))"
proof -
  note found = getAccessibleClients_found [OF assms]
  have br: "fst (getAccessibleClients d userId)
      = caught (sql_branch_clients (the (u_client_id u)) d)"
    if "str_includes (u_roles u) ''_admin''" "truthy_id (u_client_id u)"
  proof -
    from that(1) admin_not_branch have "u_roles u \<noteq> ''admin''" by auto
    with found that show ?thesis by simp
  qed
  have nb: "fst (getAccessibleClients d userId)
      = (if u_roles u = ''admin'' then sql_all_clients d
         else if truthy_id (u_client_id u) then sql_own_client (the (u_client_id u)) d
         else Inr [])"
    if "\<not> str_includes (u_roles u) ''_admin''"
    using found that by (simp add: caught_def sql_all_clients_def sql_own_client_def)
  have own: "\<exists>rows. fst (getAccessibleClients d userId) = Inr rows
      \<and> (\<forall>c \<in> set rows. u_client_id u = Some (c_client_id c))"
    if "\<not> str_includes (u_roles u) ''_admin''" "u_roles u \<noteq> ''admin''"
  proof (cases "u_client_id u")
    case None
    with nb [OF that(1)] that(2) show ?thesis by simp
  next
    case (Some C)
    with nb [OF that(1)] that(2) show ?thesis by (auto simp add: sql_own_client_def)
  qed
  have mg: "fst (canUserManageClient d userId clientId) = Inr False"
    if "\<not> u_can_manage_hierarchy u" "u_roles u \<noteq> ''admin''"
    using assms that
    by (simp add: canUserManageClient_def database_query_def sql_user_by_id_def)
  have fl: "fst (canUserManageClient d userId clientId)
      = Inr (u_roles u = ''admin''
             \<or> (u_can_manage_hierarchy u \<and> truthy_id (u_client_id u)
                 \<and> (\<exists>c \<in> set (projr (fst (getAccessibleClients
                          (d\<lparr>query_count := query_count d + 1\<rparr>) userId))).
                        c_client_id c = clientId)))"
    if "clientId \<noteq> 0"
  proof -
    let ?d1 = "d\<lparr>query_count := query_count d + 1\<rparr>"
    from getAccessibleClients_returns [of ?d1 userId] obtain rows d2 where
      "getAccessibleClients ?d1 userId = (Inr rows, d2)" by (metis prod.collapse)
    with assms that show ?thesis
      by (auto simp add: canUserManageClient_def database_query_def sql_user_by_id_def)
  qed
  from br nb own mg fl getAccessibleClients_ignores_flag show ?thesis by blast
qed

text \<open>
  The sample user is flagged \<open>can_manage_hierarchy\<close> and assigned to division 2: it
  receives node 2 alone, and may manage node 2. With all flags cleared it receives the
  same rows and may no longer manage node 2. The branch admin \<open>paddy_admin\<close> is not
  flagged and receives nodes 2 and 5, yet may not manage node 5.
\<close>

theorem branch_case_by_role_name_witness:
  "u_can_manage_hierarchy demo_user \<and> \<not> u_can_manage_hierarchy demo_branch_admin
   \<and> map c_client_id (projr (fst (getAccessibleClients demo_db 2))) = [2, 5]
   \<and> map c_client_id (projr (fst (getAccessibleClients demo_db 3))) = [2]
   \<and> fst (canUserManageClient demo_db 2 5) = Inr False
   \<and> fst (canUserManageClient demo_db 3 2) = Inr True
   \<and> fst (canUserManageClient demo_db 3 5) = Inr False
   \<and> fst (canUserManageClient demo_db 1 5) = Inr True
   \<and> fst (canUserManageClient demo_db_unflagged 3 2) = Inr False
   \<and> fst (getAccessibleClients demo_db_unflagged 3) = fst (getAccessibleClients demo_db 3)"
proof -
  let ?n2 = "demo_node 2 (Some 1) 1 ''/1/2/'' ''division'' True"
  let ?n5 = "demo_node 5 (Some 2) 2 ''/1/2/5/'' ''site'' True"
  have u1: "(1::int) \<noteq> 0" and u2: "(2::int) \<noteq> 0" and u3: "(3::int) \<noteq> 0"
    by simp_all
  have ad: "[u \<leftarrow> users demo_db. u_id u = 1] = demo_admin # []"
      "u_roles demo_admin = ''admin''"
    by (simp_all add: demo_defs)
  have a: "available demo_db (query_count demo_db)"
      "available demo_db (query_count demo_db + 1)"
    by (simp_all add: demo_defs)
  have av: "available demo_db_unflagged (query_count demo_db_unflagged)"
      "available demo_db_unflagged (query_count demo_db_unflagged + 1)"
    by (simp_all add: demo_db_unflagged_def demo_defs)
  have b: "[u \<leftarrow> users demo_db. u_id u = 2] = demo_branch_admin # []"
    by (simp add: demo_defs)
  have r: "[u \<leftarrow> users demo_db. u_id u = 3] = demo_user # []"
    by (simp add: demo_defs)
  have n: "[u \<leftarrow> users demo_db_unflagged. u_id u = 3]
      = demo_user\<lparr>u_can_manage_hierarchy := False\<rparr> # []"
    by (simp add: demo_db_unflagged_def demo_defs)
  have fb: "str_includes (u_roles demo_branch_admin) ''_admin''"
      "truthy_id (u_client_id demo_branch_admin)" "the (u_client_id demo_branch_admin) = 2"
      "\<not> u_can_manage_hierarchy demo_branch_admin" "u_roles demo_branch_admin \<noteq> ''admin''"
    by (simp_all add: demo_defs)
  have fu: "\<not> str_includes (u_roles demo_user) ''_admin''" "u_roles demo_user \<noteq> ''admin''"
      "truthy_id (u_client_id demo_user)" "the (u_client_id demo_user) = 2"
      "u_can_manage_hierarchy demo_user"
    by (simp_all add: demo_defs)
  have sb: "caught (sql_branch_clients 2 demo_db) = Inr [?n2, ?n5]"
    by (simp add: caught_def sql_branch_clients_def demo_defs order_by_hierarchy_path_def)
  have so: "sql_own_client 2 demo_db = Inr [?n2]"
    by (simp add: sql_own_client_def demo_defs)
  have inner: "fst (getAccessibleClients (demo_db\<lparr>query_count := Suc (query_count demo_db)\<rparr>) 3)
      = Inr [?n2]"
    by (simp add: getAccessibleClients_def demo_defs database_query_def
        sql_user_by_id_def sql_own_client_def catch_empty_def)
  note B = branch_case_by_role_name [OF u2 a b, where clientId = 5]
  note U = branch_case_by_role_name [OF u3 a r, where clientId = 2 and g = "\<lambda>u. False"]
  note N = branch_case_by_role_name [OF u3 av n, where clientId = 2]
  note V = branch_case_by_role_name [OF u3 a r, where clientId = 5]
  note A = branch_case_by_role_name [OF u1 a ad(1), where clientId = 5]
  from B fb sb have w1: "fst (getAccessibleClients demo_db 2) = Inr [?n2, ?n5]" by simp
  from U fu so have w2: "fst (getAccessibleClients demo_db 3) = Inr [?n2]" by simp
  from B fb have w3: "fst (canUserManageClient demo_db 2 5) = Inr False" by simp
  from U fu have "fst (canUserManageClient demo_db 3 2)
      = Inr (\<exists>c \<in> set (projr (fst (getAccessibleClients
              (demo_db\<lparr>query_count := query_count demo_db + 1\<rparr>) 3))). c_client_id c = 2)"
    by simp
  then have w4: "fst (canUserManageClient demo_db 3 2) = Inr True"
    by (simp add: inner) (simp add: demo_node_def)
  from V fu have "fst (canUserManageClient demo_db 3 5)
      = Inr (\<exists>c \<in> set (projr (fst (getAccessibleClients
              (demo_db\<lparr>query_count := query_count demo_db + 1\<rparr>) 3))). c_client_id c = 5)"
    by simp
  then have w7: "fst (canUserManageClient demo_db 3 5) = Inr False"
    by (simp add: inner) (simp add: demo_node_def)
  from A ad(2) have w8: "fst (canUserManageClient demo_db 1 5) = Inr True" by simp
  from N fu have w5: "fst (canUserManageClient demo_db_unflagged 3 2) = Inr False" by simp
  from U have w6: "fst (getAccessibleClients demo_db_unflagged 3)
      = fst (getAccessibleClients demo_db 3)"
    by (simp add: demo_db_unflagged_def)
  have ids: "map c_client_id [?n2, ?n5] = [2, 5]" "map c_client_id [?n2] = [2]"
    by (simp_all add: demo_node_def)
  from fb(4) fu(5) w1 w2 w3 w4 w5 w6 w7 w8 ids show ?thesis by simp
qed


end
